theory Spec2Isabelle
  imports Complex_Main
begin

section \<open>Strings\<close>

text \<open>
  A Python \<open>str\<close> is modelled as a \<open>string\<close> holding its UTF-8 bytes, so the Chinese
  labels of the source are byte sequences. Substring search and lexicographic comparison
  on UTF-8 bytes agree with the same operations on code points. \<open>str.lower()\<close> is
  modelled on the ASCII letters only: every other byte is left as it is.
\<close>

definition lower_char :: "char \<Rightarrow> char" where
  "lower_char c =
     (let n = (of_char c :: nat) in if 65 \<le> n \<and> n \<le> 90 then char_of (n + 32) else c)"

definition lower :: "string \<Rightarrow> string" where
  "lower s = map lower_char s"

text \<open>\<open>starts_with s t\<close>: \<open>t.startswith(s)\<close>.\<close>

fun starts_with :: "string \<Rightarrow> string \<Rightarrow> bool" where
  "starts_with [] t = True"
| "starts_with (c # s) [] = False"
| "starts_with (c # s) (d # t) = (c = d \<and> starts_with s t)"

text \<open>\<open>py_in s t\<close>: the Python test \<open>s in t\<close> on two strings.\<close>

fun py_in :: "string \<Rightarrow> string \<Rightarrow> bool" where
  "py_in s [] = (s = [])"
| "py_in s (d # t) = (starts_with s (d # t) \<or> py_in s t)"

section \<open>Records of the retrieval capability\<close>

text \<open>
  \<open>arxiv.Result\<close>, with the fields the program reads. \<open>published\<close> is an aware UTC
  \<open>datetime\<close>, modelled as its position on the time line: microseconds since
  1970-01-01T00:00:00Z. The fields \<open>title\<close>, \<open>authors\<close>, \<open>summary\<close> and \<open>categories\<close>
  carry the prefix \<open>res_\<close>, the plain names being the keys of the dictionaries the
  program builds.
\<close>

record result =
  res_title :: string
  res_authors :: "string list"
  res_summary :: string
  pdf_url :: string
  published :: int
  res_categories :: "string list"

section \<open>Relevance score\<close>

text \<open>
  The loop of \<open>calculate_relevance_score\<close>, on the pair \<open>(score, total_weight)\<close>.
  \<open>title_weight = 2\<close>, \<open>summary_weight = 1\<close>.
\<close>

definition title_weight :: int where "title_weight = 2"
definition summary_weight :: int where "summary_weight = 1"

fun score_loop :: "result \<Rightarrow> string list \<Rightarrow> int \<times> int \<Rightarrow> int \<times> int" where
  "score_loop paper [] (score, total_weight) = (score, total_weight)"
| "score_loop paper (keyword # rest) (score, total_weight) =
     (let score1 = (if py_in (lower keyword) (lower (res_title paper))
                    then score + title_weight else score);
          score2 = (if py_in (lower keyword) (lower (res_summary paper))
                    then score1 + summary_weight else score1)
      in score_loop paper rest (score2, total_weight + (title_weight + summary_weight)))"

text \<open>
  \<open>calculate_relevance_score\<close>. The keywords are \<open>None\<close> or a list; \<open>not keywords\<close>
  holds for \<open>None\<close> and for the empty list. Python divides two integers into the nearest
  double; the model keeps the exact quotient as a rational.
\<close>

definition calculate_relevance_score :: "result \<Rightarrow> string list option \<Rightarrow> rat" where
  "calculate_relevance_score paper keywords =
     (case keywords of
        None \<Rightarrow> 1
      | Some kws \<Rightarrow>
          if kws = [] then 1
          else (case score_loop paper kws (0, 0) of
                  (score, total_weight) \<Rightarrow>
                    if total_weight > 0 then of_int score / of_int total_weight else 0))"

section \<open>The identifier pattern\<close>

text \<open>
  Regular expressions, with \<open>re.match\<close> decided by Brzozowski derivatives: \<open>re.match\<close>
  succeeds when some prefix of the string is in the language of the pattern. \<open>Digit\<close> is
  \<open>\d\<close>, read on the ASCII digits.
\<close>

datatype regex =
    Null
  | Eps
  | Digit
  | Lit char
  | Alt regex regex
  | Cat regex regex
  | Star regex

definition is_digit :: "char \<Rightarrow> bool" where
  "is_digit c = (let n = (of_char c :: nat) in 48 \<le> n \<and> n \<le> 57)"

fun nullable :: "regex \<Rightarrow> bool" where
  "nullable Null = False"
| "nullable Eps = True"
| "nullable Digit = False"
| "nullable (Lit c) = False"
| "nullable (Alt r s) = (nullable r \<or> nullable s)"
| "nullable (Cat r s) = (nullable r \<and> nullable s)"
| "nullable (Star r) = True"

fun deriv :: "char \<Rightarrow> regex \<Rightarrow> regex" where
  "deriv c Null = Null"
| "deriv c Eps = Null"
| "deriv c Digit = (if is_digit c then Eps else Null)"
| "deriv c (Lit d) = (if c = d then Eps else Null)"
| "deriv c (Alt r s) = Alt (deriv c r) (deriv c s)"
| "deriv c (Cat r s) =
     (if nullable r then Alt (Cat (deriv c r) s) (deriv c s) else Cat (deriv c r) s)"
| "deriv c (Star r) = Cat (deriv c r) (Star r)"

text \<open>\<open>re_fullmatch r s\<close>: all of \<open>s\<close> matches \<open>r\<close>.\<close>

fun re_fullmatch :: "regex \<Rightarrow> string \<Rightarrow> bool" where
  "re_fullmatch r [] = nullable r"
| "re_fullmatch r (c # s) = re_fullmatch (deriv c r) s"

text \<open>\<open>re_match r s\<close>: \<open>re.match(r, s)\<close> is not \<open>None\<close>, a prefix of \<open>s\<close> matches \<open>r\<close>.\<close>

fun re_match :: "regex \<Rightarrow> string \<Rightarrow> bool" where
  "re_match r [] = nullable r"
| "re_match r (c # s) = (nullable r \<or> re_match (deriv c r) s)"

text \<open>The counted repetition \<open>r{m,m+k}\<close>, the option \<open>r?\<close> and \<open>r+\<close>.\<close>

fun rep_upto :: "nat \<Rightarrow> regex \<Rightarrow> regex" where
  "rep_upto 0 r = Eps"
| "rep_upto (Suc k) r = Alt Eps (Cat r (rep_upto k r))"

fun rep :: "nat \<Rightarrow> nat \<Rightarrow> regex \<Rightarrow> regex" where
  "rep 0 k r = rep_upto k r"
| "rep (Suc m) k r = Cat r (rep m k r)"

definition opt :: "regex \<Rightarrow> regex" where
  "opt r = Alt r Eps"

definition plus :: "regex \<Rightarrow> regex" where
  "plus r = Cat r (Star r)"

text \<open>\<open>arxiv_id_pattern = r'\d{4}\.\d{4,5}(?:v\d+)?'\<close>\<close>

definition arxiv_id_pattern :: regex where
  "arxiv_id_pattern =
     Cat (rep 4 0 Digit)
       (Cat (Lit (CHR ''.''))
         (Cat (rep 4 1 Digit) (opt (Cat (Lit (CHR ''v'')) (plus Digit)))))"

section \<open>Dates\<close>

text \<open>
  \<open>timedelta(days=days)\<close> raises \<open>OverflowError\<close> beyond 999999999 days, and
  \<open>now - timedelta\<close> raises it when the result leaves the years 1 to 9999.
\<close>

datatype error =
    TypeError string
  | OverflowError string
  | ValueError string
  | RetrievalError string

fun str_of_error :: "error \<Rightarrow> string" where
  "str_of_error (TypeError m) = m"
| "str_of_error (OverflowError m) = m"
| "str_of_error (ValueError m) = m"
| "str_of_error (RetrievalError m) = m"

definition usec_per_day :: int where
  "usec_per_day = 86400000000"

definition datetime_min :: int where
  "datetime_min = - 62135596800000000"

definition datetime_max :: int where
  "datetime_max = 253402300799999999"

definition digit_char :: "int \<Rightarrow> char" where
  "digit_char n = char_of (48 + n mod 10)"

text \<open>\<open>str(n)\<close> for an integer: first the numbers that are not negative.\<close>

function str_nonneg :: "int \<Rightarrow> string" where
  "str_nonneg n = (if n < 10 then [digit_char n] else str_nonneg (n div 10) @ [digit_char n])"
  by pat_completeness auto
termination
  by (relation "measure nat") auto

declare str_nonneg.simps [simp del]

definition str_int :: "int \<Rightarrow> string" where
  "str_int i = (if i < 0 then ''-'' @ str_nonneg (- i) else str_nonneg i)"

definition cutoff_date :: "int \<Rightarrow> int \<Rightarrow> error + int" where
  "cutoff_date now days =
     (if days < - 999999999 \<or> 999999999 < days
      then Inl (OverflowError (''days='' @ str_int days @ ''; must have magnitude <= 999999999''))
      else let c = now - days * usec_per_day
           in if c < datetime_min \<or> datetime_max < c
              then Inl (OverflowError ''date value out of range'')
              else Inr c)"

text \<open>
  The civil date of a day number (days since 1970-01-01) in the proleptic Gregorian
  calendar, as year, month and day.
\<close>

definition civil_from_days :: "int \<Rightarrow> int \<times> int \<times> int" where
  "civil_from_days z0 =
     (let z = z0 + 719468;
          era = z div 146097;
          doe = z - era * 146097;
          yoe = (doe - doe div 1460 + doe div 36524 - doe div 146096) div 365;
          y = yoe + era * 400;
          doy = doe - (365 * yoe + yoe div 4 - yoe div 100);
          mp = (5 * doy + 2) div 153;
          d = doy - (153 * mp + 2) div 5 + 1;
          m = (if mp < 10 then mp + 3 else mp - 9)
      in (if m \<le> 2 then y + 1 else y, m, d))"

definition pad2 :: "int \<Rightarrow> string" where
  "pad2 n = (if n < 10 then ''0'' @ str_int n else str_int n)"

text \<open>
  \<open>strftime('%Y-%m-%d')\<close> of a UTC instant. The year is printed without padding, which is
  what the C library does on Linux; from the year 1000 on it has its four digits.
\<close>

definition strftime_ymd :: "int \<Rightarrow> string" where
  "strftime_ymd t =
     (case civil_from_days (t div usec_per_day) of
        (y, m, d) \<Rightarrow> str_int y @ ''-'' @ pad2 m @ ''-'' @ pad2 d)"

section \<open>The retrieval capability and the clock\<close>

text \<open>
  \<open>client.results(search)\<close> is a generator: it yields a finite sequence of records and
  then ends, either exhausted (\<open>None\<close>) or by raising (\<open>Some e\<close>). The world of one
  request has the reading of the clock, the generator of an identifier lookup
  (\<open>arxiv.Search(id_list=[q])\<close>) and the generator of a query with its result cap
  (\<open>arxiv.Search(query=q, max_results=n, sort_by=SubmittedDate)\<close>).
\<close>

type_synonym feed = "result list \<times> error option"

record world =
  utc_now :: int
  id_results :: "string \<Rightarrow> feed"
  query_results :: "string \<Rightarrow> int \<Rightarrow> feed"

section \<open>search\_papers\<close>

text \<open>The dictionary built for each paper.\<close>

record paper_dict =
  title :: string
  authors :: "string list"
  summary :: string
  url :: string
  published_date :: string
  categories :: "string list"
  relevance_score :: rat

definition to_dict :: "result \<Rightarrow> rat \<Rightarrow> paper_dict" where
  "to_dict paper score =
     \<lparr>title = res_title paper,
      authors = res_authors paper,
      summary = res_summary paper,
      url = pdf_url paper,
      published_date = strftime_ymd (published paper),
      categories = res_categories paper,
      relevance_score = score\<rparr>"

text \<open>
  The identifier branch: \<open>next\<close> takes the first record of the generator; \<open>StopIteration\<close>
  is caught and gives the empty list, any other exception leaves the function.
\<close>

definition id_lookup :: "world \<Rightarrow> string \<Rightarrow> error + paper_dict list" where
  "id_lookup w query_type =
     (case id_results w query_type of
        (paper # rest, ending) \<Rightarrow> Inr [to_dict paper 1]
      | ([], None) \<Rightarrow> Inr []
      | ([], Some e) \<Rightarrow> Inl e)"

text \<open>\<open>sep.join(xs)\<close>\<close>

fun join :: "string \<Rightarrow> string list \<Rightarrow> string" where
  "join sep [] = []"
| "join sep [x] = x"
| "join sep (x # y # ys) = x @ sep @ join sep (y # ys)"

definition moe_inference_query :: string where
  \<open>moe_inference_query =
     ''(ti:"mixture of experts" OR ti:moe) AND (ti:deployment OR abs:deployment OR '' @
     ''ti:inference OR abs:inference OR ti:efficient OR abs:efficient)''\<close>

definition keyword_condition :: "string \<Rightarrow> string" where
  \<open>keyword_condition keyword = ''(ti:"'' @ keyword @ ''" OR abs:"'' @ keyword @ ''")''\<close>

text \<open>
  \<open>query_parts\<close> after the three blocks that append to it. \<open>if field\<close> and
  \<open>if keywords\<close> fail for \<open>None\<close> and for the empty value.
\<close>

definition query_parts :: "string \<Rightarrow> string option \<Rightarrow> string list option \<Rightarrow> string list" where
  \<open>query_parts query_type field keywords =
     (if query_type = ''moe inference'' then [moe_inference_query]
      else if query_type \<noteq> [] then [query_type] else [])
     @ (case field of
          None \<Rightarrow> []
        | Some f \<Rightarrow> if f \<noteq> [] then [''(cat:"'' @ f @ ''")''] else [])
     @ (case keywords of
          None \<Rightarrow> []
        | Some kws \<Rightarrow>
            if kws \<noteq> [] then [''('' @ join '' OR '' (map keyword_condition kws) @ '')'']
            else [])\<close>

definition final_query :: "string \<Rightarrow> string option \<Rightarrow> string list option \<Rightarrow> string" where
  "final_query query_type field keywords =
     (let parts = query_parts query_type field keywords
      in if parts \<noteq> [] then join '' AND '' parts else ''*:*'')"

text \<open>
  The loop over the generator, with the list \<open>papers\<close> as accumulator. \<open>len(keywords)\<close>
  raises \<open>TypeError\<close> when \<open>keywords\<close> is \<open>None\<close>.
\<close>

definition len_none :: error where
  "len_none = TypeError ''object of type 'NoneType' has no len()''"

fun collect :: "string list option \<Rightarrow> int \<Rightarrow> result list \<Rightarrow> paper_dict list
                \<Rightarrow> error + paper_dict list" where
  "collect keywords cutoff [] papers = Inr papers"
| "collect keywords cutoff (paper # rest) papers =
     (case keywords of
        None \<Rightarrow> Inl len_none
      | Some kws \<Rightarrow>
          if length kws > 0 \<or> published paper \<ge> cutoff
          then collect keywords cutoff rest
                 (papers @ [to_dict paper (calculate_relevance_score paper keywords)])
          else collect keywords cutoff rest papers)"

definition collect_feed :: "string list option \<Rightarrow> int \<Rightarrow> feed \<Rightarrow> error + paper_dict list" where
  "collect_feed keywords cutoff f =
     (case f of
        (items, ending) \<Rightarrow>
          (case collect keywords cutoff items [] of
             Inl e \<Rightarrow> Inl e
           | Inr papers \<Rightarrow> (case ending of None \<Rightarrow> Inr papers | Some e \<Rightarrow> Inl e)))"

text \<open>Python's \<open><\<close> on two strings and on two tuples \<open>(float, str)\<close>.\<close>

fun str_lt :: "string \<Rightarrow> string \<Rightarrow> bool" where
  "str_lt [] [] = False"
| "str_lt [] (d # t) = True"
| "str_lt (c # s) [] = False"
| "str_lt (c # s) (d # t) =
     ((of_char c :: nat) < of_char d \<or> (c = d \<and> str_lt s t))"

fun key_lt :: "rat \<times> string \<Rightarrow> rat \<times> string \<Rightarrow> bool" where
  "key_lt (a, s) (b, t) = (a < b \<or> (a = b \<and> str_lt s t))"

text \<open>The key of the sort: \<open>lambda x: (-x['relevance_score'], x['published_date'])\<close>.\<close>

definition key_of :: "paper_dict \<Rightarrow> rat \<times> string" where
  "key_of x = (- relevance_score x, published_date x)"

text \<open>
  \<open>papers.sort(key=..., reverse=True)\<close>: a stable sort into descending order of the key.
  Every record is put in front of the first record whose key is not greater than its own,
  so records of equal keys keep the order they had.
\<close>

fun insert_reverse :: "paper_dict \<Rightarrow> paper_dict list \<Rightarrow> paper_dict list" where
  "insert_reverse x [] = [x]"
| "insert_reverse x (y # ys) =
     (if key_lt (key_of x) (key_of y) then y # insert_reverse x ys else x # y # ys)"

definition sort_reverse :: "paper_dict list \<Rightarrow> paper_dict list" where
  "sort_reverse papers = foldr insert_reverse papers []"

text \<open>\<open>xs[:n]\<close>: a negative \<open>n\<close> counts from the end.\<close>

definition slice_to :: "'a list \<Rightarrow> int \<Rightarrow> 'a list" where
  "slice_to xs n = (if 0 \<le> n then take (nat n) xs else take (nat (int (length xs) + n)) xs)"

definition is_arxiv_id :: "string \<Rightarrow> bool" where
  "is_arxiv_id query_type = (query_type \<noteq> [] \<and> re_match arxiv_id_pattern query_type)"

definition search_papers ::
  "world \<Rightarrow> int \<Rightarrow> string \<Rightarrow> int \<Rightarrow> string option \<Rightarrow> string list option
   \<Rightarrow> error + paper_dict list" where
  "search_papers w days query_type max_results field keywords =
     (if is_arxiv_id query_type then id_lookup w query_type
      else
        let search = query_results w (final_query query_type field keywords)
                       (max 100 (max_results * 2))
        in case cutoff_date (utc_now w) days of
             Inl e \<Rightarrow> Inl e
           | Inr cutoff \<Rightarrow>
               (case collect_feed keywords cutoff search of
                  Inl e \<Rightarrow> Inl e
                | Inr papers \<Rightarrow> Inr (slice_to (sort_reverse papers) max_results)))"

section \<open>format\_papers\<close>

text \<open>
  The Chinese texts of the source, as their UTF-8 bytes: the sentence returned for an empty
  list, the labels of the lines of a block (relevance score, authors, date of publication,
  categories, link, summary) and the prefix of an error message.
\<close>

definition no_results :: string where
  "no_results =
     [CHR 0xE5, CHR 0x9C, CHR 0xA8, CHR 0xE6, CHR 0x8C, CHR 0x87, CHR 0xE5, CHR 0xAE,
      CHR 0x9A, CHR 0xE6, CHR 0x97, CHR 0xB6, CHR 0xE9, CHR 0x97, CHR 0xB4, CHR 0xE8,
      CHR 0x8C, CHR 0x83, CHR 0xE5, CHR 0x9B, CHR 0xB4, CHR 0xE5, CHR 0x86, CHR 0x85,
      CHR 0xE6, CHR 0x9C, CHR 0xAA, CHR 0xE6, CHR 0x89, CHR 0xBE, CHR 0xE5, CHR 0x88,
      CHR 0xB0, CHR 0xE7, CHR 0x9B, CHR 0xB8, CHR 0xE5, CHR 0x85, CHR 0xB3, CHR 0xE8,
      CHR 0xAE, CHR 0xBA, CHR 0xE6, CHR 0x96, CHR 0x87, CHR 0xE3, CHR 0x80, CHR 0x82]"

definition label_score :: string where
  "label_score =
     [CHR 0xE7, CHR 0x9B, CHR 0xB8, CHR 0xE5, CHR 0x85, CHR 0xB3, CHR 0xE6, CHR 0x80,
      CHR 0xA7, CHR 0xE5, CHR 0xBE, CHR 0x97, CHR 0xE5, CHR 0x88, CHR 0x86, CHR 0x3A,
      CHR 0x20]"

definition label_authors :: string where
  "label_authors =
     [CHR 0xE4, CHR 0xBD, CHR 0x9C, CHR 0xE8, CHR 0x80, CHR 0x85, CHR 0x3A, CHR 0x20]"

definition label_date :: string where
  "label_date =
     [CHR 0xE5, CHR 0x8F, CHR 0x91, CHR 0xE5, CHR 0xB8, CHR 0x83, CHR 0xE6, CHR 0x97,
      CHR 0xA5, CHR 0xE6, CHR 0x9C, CHR 0x9F, CHR 0x3A, CHR 0x20]"

definition label_categories :: string where
  "label_categories =
     [CHR 0xE9, CHR 0xA2, CHR 0x86, CHR 0xE5, CHR 0x9F, CHR 0x9F, CHR 0xE5, CHR 0x88,
      CHR 0x86, CHR 0xE7, CHR 0xB1, CHR 0xBB, CHR 0x3A, CHR 0x20]"

definition label_url :: string where
  "label_url =
     [CHR 0xE9, CHR 0x93, CHR 0xBE, CHR 0xE6, CHR 0x8E, CHR 0xA5, CHR 0x3A, CHR 0x20]"

definition label_summary :: string where
  "label_summary =
     [CHR 0xE6, CHR 0x91, CHR 0x98, CHR 0xE8, CHR 0xA6, CHR 0x81, CHR 0x3A, CHR 0x20]"

definition error_marker :: string where
  "error_marker =
     [CHR 0xE5, CHR 0x87, CHR 0xBA, CHR 0xE7, CHR 0x8E, CHR 0xB0, CHR 0xE9, CHR 0x94,
      CHR 0x99, CHR 0xE8, CHR 0xAF, CHR 0xAF, CHR 0x3A, CHR 0x20]"

text \<open>
  The lines of one block. \<open>fmt2\<close> stands for the rendering \<open>:.2f\<close> of a float, which
  depends on the double behind the score and is left open. Every dictionary of
  \<open>search_papers\<close> has the key \<open>relevance_score\<close>.
\<close>

definition paper_text :: "(rat \<Rightarrow> string) \<Rightarrow> bool \<Rightarrow> int \<Rightarrow> paper_dict \<Rightarrow> string list" where
  "paper_text fmt2 show_score i paper =
     [str_int i @ ''. '' @ title paper]
     @ (if show_score then [label_score @ fmt2 (relevance_score paper)] else [])
     @ [label_authors @ join '', '' (authors paper),
        label_date @ published_date paper,
        label_categories @ join '', '' (categories paper),
        label_url @ url paper,
        label_summary @ summary paper]"

text \<open>The loop over \<open>enumerate(papers, i)\<close>, giving the list \<open>formatted\<close>.\<close>

fun formatted :: "(rat \<Rightarrow> string) \<Rightarrow> bool \<Rightarrow> int \<Rightarrow> paper_dict list \<Rightarrow> string list" where
  "formatted fmt2 show_score i [] = []"
| "formatted fmt2 show_score i (paper # rest) =
     (join [CHR 0x0A] (paper_text fmt2 show_score i paper) @ [CHR 0x0A] @ ''---'')
     # formatted fmt2 show_score (i + 1) rest"

definition format_papers :: "(rat \<Rightarrow> string) \<Rightarrow> paper_dict list \<Rightarrow> bool \<Rightarrow> string" where
  "format_papers fmt2 papers show_score =
     (if papers = [] then no_results
      else join [CHR 0x0A, CHR 0x0A] (formatted fmt2 show_score 1 papers))"

section \<open>handle\_call\_tool\<close>

text \<open>
  The argument dictionary: a key that is absent, or \<open>null\<close> for \<open>field\<close> and
  \<open>keywords\<close>, is \<open>None\<close>. An unknown tool name raises \<open>ValueError\<close> outside the
  \<open>try\<close>; every exception inside it becomes a text.
\<close>

record arguments =
  arg_days :: "int option"
  arg_query_type :: "string option"
  arg_max_results :: "int option"
  arg_field :: "string option"
  arg_keywords :: "string list option"

definition no_arguments :: arguments where
  "no_arguments =
     \<lparr>arg_days = None, arg_query_type = None, arg_max_results = None,
      arg_field = None, arg_keywords = None\<rparr>"

definition get_default :: "'a option \<Rightarrow> 'a \<Rightarrow> 'a" where
  "get_default v d = (case v of None \<Rightarrow> d | Some x \<Rightarrow> x)"

definition handle_call_tool ::
  "world \<Rightarrow> (rat \<Rightarrow> string) \<Rightarrow> string \<Rightarrow> arguments option \<Rightarrow> error + string" where
  "handle_call_tool w fmt2 name arguments0 =
     (let arguments = get_default arguments0 no_arguments
      in if name \<noteq> ''papersearch'' then Inl (ValueError (''Unknown tool: '' @ name))
         else
           let days = get_default (arg_days arguments) 7;
               query_type = get_default (arg_query_type arguments) ''moe'';
               max_results = get_default (arg_max_results arguments) 100;
               field = arg_field arguments;
               keywords = arg_keywords arguments
           in case search_papers w days query_type max_results field keywords of
                Inl e \<Rightarrow> Inr (error_marker @ str_of_error e)
              | Inr papers \<Rightarrow> Inr (format_papers fmt2 papers False))"

section \<open>Sample requests\<close>

text \<open>
  Three records, a clock reading of 2026-11-03 and three worlds: one whose searches yield
  two records, one whose searches yield nothing, and one that knows a single identifier.
  They are the concrete inputs at which the theorems below are evaluated.
\<close>

definition paper_moe :: result where
  "paper_moe =
     \<lparr>res_title = ''MoE routing'', res_authors = [''A. Author''],
      res_summary = ''fast inference'', pdf_url = ''http://arxiv.org/pdf/2402.00001'',
      published = 1709251199999999, res_categories = [''cs.LG'']\<rparr>"

definition paper_old :: result where
  "paper_old =
     \<lparr>res_title = ''Sparse models'', res_authors = [''B. Author'', ''C. Author''],
      res_summary = ''a survey'', pdf_url = ''http://arxiv.org/pdf/2103.03404'',
      published = 1614945600000000, res_categories = [''cs.CL'']\<rparr>"

definition paper_both :: result where
  "paper_both =
     \<lparr>res_title = ''MoE Inference'', res_authors = [''D. Author''],
      res_summary = ''a study'', pdf_url = ''http://arxiv.org/pdf/2611.00001'',
      published = 1793577600000000, res_categories = [''cs.LG'']\<rparr>"

definition no_feed :: "string \<Rightarrow> feed" where
  "no_feed q = ([], None)"

definition known_id :: "string \<Rightarrow> feed" where
  "known_id q = (if q = ''2103.03404'' then ([paper_old], None) else ([], None))"

definition two_papers :: "string \<Rightarrow> int \<Rightarrow> feed" where
  "two_papers q n = ([paper_moe, paper_old], None)"

definition recent_and_old :: "string \<Rightarrow> int \<Rightarrow> feed" where
  "recent_and_old q n = ([paper_both, paper_old], None)"

definition no_papers :: "string \<Rightarrow> int \<Rightarrow> feed" where
  "no_papers q n = ([], None)"

definition example_world :: world where
  "example_world =
     \<lparr>utc_now = 1793664000000000, id_results = known_id, query_results = two_papers\<rparr>"

definition recent_world :: world where
  "recent_world =
     \<lparr>utc_now = 1793664000000000, id_results = no_feed, query_results = recent_and_old\<rparr>"

definition silent_world :: world where
  "silent_world =
     \<lparr>utc_now = 1793664000000000, id_results = no_feed, query_results = no_papers\<rparr>"

definition two_decimals :: "rat \<Rightarrow> string" where
  "two_decimals r = ''0.00''"

section \<open>Notions used in the statements\<close>

text \<open>What one keyword adds to the score: 2 for the title, 1 for the summary.\<close>

definition keyword_points :: "result \<Rightarrow> string \<Rightarrow> int" where
  "keyword_points paper k =
     (if py_in (lower k) (lower (res_title paper)) then 2 else 0)
     + (if py_in (lower k) (lower (res_summary paper)) then 1 else 0)"

text \<open>The dictionary of a record in a search with the given keywords.\<close>

definition dict_of :: "string list option \<Rightarrow> result \<Rightarrow> paper_dict" where
  "dict_of kwds paper = to_dict paper (calculate_relevance_score paper kwds)"

text \<open>
  The language of a regular expression: the strings that match it as a whole. \<open>star A\<close>
  is the set of the concatenations of finitely many strings of \<open>A\<close>.
\<close>

inductive_set star :: "string set \<Rightarrow> string set" for A :: "string set" where
  star_nil: "[] \<in> star A"
| star_app: "u \<in> A \<Longrightarrow> v \<in> star A \<Longrightarrow> u @ v \<in> star A"

fun lang :: "regex \<Rightarrow> string set" where
  "lang Null = {}"
| "lang Eps = {[]}"
| "lang Digit = {[c] | c. is_digit c}"
| "lang (Lit d) = {[d]}"
| "lang (Alt r s) = lang r \<union> lang s"
| "lang (Cat r s) = {u @ v | u v. u \<in> lang r \<and> v \<in> lang s}"
| "lang (Star r) = star (lang r)"

text \<open>What the identifier pattern allows after the four digits that follow the dot.\<close>

definition id_tail :: regex where
  "id_tail = Cat (rep_upto 1 Digit) (opt (Cat (Lit (CHR ''v'')) (plus Digit)))"

text \<open>
  \<open>not_before x y\<close>: the key of \<open>x\<close> is not smaller than the key of \<open>y\<close>, which is how
  two records stand in a list sorted in reverse.
\<close>

definition not_before :: "paper_dict \<Rightarrow> paper_dict \<Rightarrow> bool" where
  "not_before x y = (\<not> key_lt (key_of x) (key_of y))"

section \<open>Properties of the relevance score\<close>

text \<open>The test \<open>s in t\<close> holds exactly when \<open>s\<close> is a contiguous part of \<open>t\<close>.\<close>

lemma starts_with_iff: "starts_with s t \<longleftrightarrow> (\<exists>v. t = s @ v)"
  by (induction s t rule: starts_with.induct) auto

lemma py_in_iff: "py_in s t \<longleftrightarrow> (\<exists>u v. t = u @ s @ v)"
proof (induction t)
  case Nil
  then show ?case by auto
next
  case (Cons d t)
  show ?case
  proof
    assume "py_in s (d # t)"
    then consider "starts_with s (d # t)" | "py_in s t" by auto
    then show "\<exists>u v. d # t = u @ s @ v"
    proof cases
      case 1
      then obtain v where "d # t = s @ v" using starts_with_iff by blast
      then have "d # t = [] @ s @ v" by simp
      then show ?thesis by blast
    next
      case 2
      then obtain u v where "t = u @ s @ v" using Cons.IH by blast
      then have "d # t = (d # u) @ s @ v" by simp
      then show ?thesis by blast
    qed
  next
    assume "\<exists>u v. d # t = u @ s @ v"
    then obtain u v where uv: "d # t = u @ s @ v" by blast
    show "py_in s (d # t)"
    proof (cases u)
      case Nil
      with uv have "starts_with s (d # t)" using starts_with_iff by auto
      then show ?thesis by simp
    next
      case (Cons e u')
      with uv have "t = u' @ s @ v" by simp
      then have "py_in s t" using Cons.IH by blast
      then show ?thesis by simp
    qed
  qed
qed

lemma keyword_points_fun:
  "keyword_points paper =
     (\<lambda>k. (if py_in (lower k) (lower (res_title paper)) then 2 else 0)
        + (if py_in (lower k) (lower (res_summary paper)) then 1 else 0))"
  by (rule ext) (simp add: keyword_points_def)

lemma score_loop_sum:
  "score_loop paper kws (score, total_weight) =
     (score + sum_list (map (keyword_points paper) kws), total_weight + 3 * int (length kws))"
  by (induction kws arbitrary: score total_weight)
     (simp_all add: keyword_points_def title_weight_def summary_weight_def Let_def)

lemma score_of_keywords:
  assumes "kws \<noteq> []"
  shows "calculate_relevance_score paper (Some kws) =
           of_int (sum_list (map (keyword_points paper) kws)) / of_int (3 * int (length kws))"
proof -
  from assms have pos: "0 < 3 * int (length kws)" by simp
  have "score_loop paper kws (0, 0) =
          (sum_list (map (keyword_points paper) kws), 3 * int (length kws))"
    using score_loop_sum [of paper kws 0 0] by simp
  with assms pos show ?thesis
    unfolding calculate_relevance_score_def by simp
qed

text \<open>
  Claim C4. For a list of keywords that is not empty, the relevance score of a paper is the
  sum over the keywords \<open>k\<close> of 2 if \<open>k\<close>, in lower case, is part of the title in lower
  case, plus 1 if it is part of the summary in lower case, divided by 3 times the number of
  keywords. For the keywords \<open>moe\<close> and \<open>inference\<close>, a paper with \<open>moe\<close> only in the
  title and \<open>inference\<close> only in the summary scores \<open>3/6 = 1/2\<close>, and a paper with both
  words in the title and neither in the summary scores \<open>4/6\<close>.
\<close>

theorem relevance_score_formula:
  "(kws \<noteq> [] \<longrightarrow>
      calculate_relevance_score paper (Some kws) =
        of_int (\<Sum>k\<leftarrow>kws. (if py_in (lower k) (lower (res_title paper)) then 2 else 0)
                         + (if py_in (lower k) (lower (res_summary paper)) then 1 else 0))
        / of_int (3 * int (length kws)))
   \<and> (py_in ''moe'' (lower (res_title paper)) \<and> \<not> py_in ''moe'' (lower (res_summary paper))
      \<and> \<not> py_in ''inference'' (lower (res_title paper))
      \<and> py_in ''inference'' (lower (res_summary paper)) \<longrightarrow>
      calculate_relevance_score paper (Some [''moe'', ''inference'']) = (2 + 1) / 6
      \<and> calculate_relevance_score paper (Some [''moe'', ''inference'']) = 1 / 2)
   \<and> (py_in ''moe'' (lower (res_title paper)) \<and> \<not> py_in ''moe'' (lower (res_summary paper))
      \<and> py_in ''inference'' (lower (res_title paper))
      \<and> \<not> py_in ''inference'' (lower (res_summary paper)) \<longrightarrow>
      calculate_relevance_score paper (Some [''moe'', ''inference'']) = (2 + 2) / 6)"
proof (intro conjI impI)
  assume "kws \<noteq> []"
  then show "calculate_relevance_score paper (Some kws) =
        of_int (\<Sum>k\<leftarrow>kws. (if py_in (lower k) (lower (res_title paper)) then 2 else 0)
                         + (if py_in (lower k) (lower (res_summary paper)) then 1 else 0))
        / of_int (3 * int (length kws))"
    using score_of_keywords [of kws paper] by (simp add: keyword_points_fun)
next
  have low: "lower ''moe'' = ''moe''" "lower ''inference'' = ''inference''"
    by (simp_all add: lower_def lower_char_def)
  {
    assume a: "py_in ''moe'' (lower (res_title paper)) \<and> \<not> py_in ''moe'' (lower (res_summary paper))
      \<and> \<not> py_in ''inference'' (lower (res_title paper))
      \<and> py_in ''inference'' (lower (res_summary paper))"
    have "calculate_relevance_score paper (Some [''moe'', ''inference'']) = 3 / 6"
      using a score_of_keywords [of "[''moe'', ''inference'']" paper]
      by (simp add: keyword_points_def low)
    then show "calculate_relevance_score paper (Some [''moe'', ''inference'']) = (2 + 1) / 6"
      and "calculate_relevance_score paper (Some [''moe'', ''inference'']) = 1 / 2"
      by simp_all
  }
  {
    assume a: "py_in ''moe'' (lower (res_title paper)) \<and> \<not> py_in ''moe'' (lower (res_summary paper))
      \<and> py_in ''inference'' (lower (res_title paper))
      \<and> \<not> py_in ''inference'' (lower (res_summary paper))"
    show "calculate_relevance_score paper (Some [''moe'', ''inference'']) = (2 + 2) / 6"
      using a score_of_keywords [of "[''moe'', ''inference'']" paper]
      by (simp add: keyword_points_def low)
  }
qed

theorem relevance_score_formula_witness:
  "[''moe'', ''inference''] \<noteq> []
   \<and> calculate_relevance_score paper_moe (Some [''moe'', ''inference'']) = 1 / 2
   \<and> calculate_relevance_score paper_both (Some [''moe'', ''inference'']) = (2 + 2) / 6"
proof -
  have a: "py_in ''moe'' (lower (res_title paper_moe))
      \<and> \<not> py_in ''moe'' (lower (res_summary paper_moe))
      \<and> \<not> py_in ''inference'' (lower (res_title paper_moe))
      \<and> py_in ''inference'' (lower (res_summary paper_moe))"
    by code_simp
  have b: "py_in ''moe'' (lower (res_title paper_both))
      \<and> \<not> py_in ''moe'' (lower (res_summary paper_both))
      \<and> py_in ''inference'' (lower (res_title paper_both))
      \<and> \<not> py_in ''inference'' (lower (res_summary paper_both))"
    by code_simp
  show ?thesis
    using a b relevance_score_formula [of "[''moe'', ''inference'']" paper_moe]
      relevance_score_formula [of "[''moe'', ''inference'']" paper_both]
    by simp
qed

section \<open>Properties of search\_papers\<close>

lemma collect_Some:
  "collect (Some kws) cutoff items papers =
     Inr (papers @ map (dict_of (Some kws))
                     (filter (\<lambda>p. kws \<noteq> [] \<or> cutoff \<le> published p) items))"
proof (induction items arbitrary: papers)
  case Nil
  show ?case by simp
next
  case (Cons paper rest)
  show ?case
  proof (cases "kws \<noteq> [] \<or> cutoff \<le> published paper")
    case True
    then show ?thesis using Cons.IH [of "papers @ [dict_of (Some kws) paper]"]
      by (auto simp: dict_of_def)
  next
    case False
    then show ?thesis using Cons.IH [of papers] by auto
  qed
qed

lemma collect_None:
  "collect None cutoff items papers = (if items = [] then Inr papers else Inl len_none)"
  by (cases items) simp_all

lemma set_insert_reverse: "set (insert_reverse x ys) = insert x (set ys)"
  by (induction ys) auto

lemma set_sort_reverse: "set (sort_reverse xs) = set xs"
  by (induction xs) (simp_all add: sort_reverse_def set_insert_reverse)

lemma set_slice_to: "set (slice_to xs n) \<subseteq> set xs"
  by (auto simp: slice_to_def dest: in_set_takeD)

lemma length_slice_to: "0 \<le> n \<Longrightarrow> int (length (slice_to xs n)) \<le> n"
  by (simp add: slice_to_def)

lemma cutoff_date_Inr:
  "cutoff_date now days = Inr cutoff \<Longrightarrow> cutoff = now - days * usec_per_day"
  by (auto simp: cutoff_date_def Let_def split: if_splits)

lemma id_lookup_scores:
  "id_lookup w q = Inr papers \<Longrightarrow> length papers \<le> 1 \<and> (\<forall>p\<in>set papers. relevance_score p = 1)"
  by (auto simp: id_lookup_def to_dict_def split: prod.splits list.splits option.splits)

lemma collect_feed_scores:
  assumes "kwds = None \<or> kwds = Some []"
    and "collect_feed kwds cutoff f = Inr papers"
  shows "\<forall>p\<in>set papers. relevance_score p = 1"
proof (cases kwds)
  case None
  with assms(2) show ?thesis
    by (auto simp: collect_feed_def collect_None split: prod.splits if_splits option.splits)
next
  case (Some kws)
  with assms(1) have "kws = []" by simp
  with Some assms(2) show ?thesis
    by (auto simp: collect_feed_def collect_Some dict_of_def to_dict_def
          calculate_relevance_score_def split: prod.splits option.splits)
qed

text \<open>
  Claim C2. In a search that is not an identifier lookup and whose keywords are a list, the
  records handed to the sort are those of the generator for which the keyword list is not
  empty or the date of publication is at or after \<open>now - days\<close>, in the order of the
  generator. With keywords every record is kept, whatever its date; without keywords the
  records older than \<open>now - days\<close> are left out.
\<close>

theorem retention_rule:
  assumes "\<not> is_arxiv_id query_type"
    and "cutoff_date (utc_now w) days = Inr cutoff"
    and "query_results w (final_query query_type field (Some kws)) (max 100 (max_results * 2))
           = (items, None)"
  shows "collect (Some kws) cutoff items [] =
           Inr (map (dict_of (Some kws))
                  (filter (\<lambda>p. kws \<noteq> [] \<or> utc_now w - days * usec_per_day \<le> published p) items))
       \<and> search_papers w days query_type max_results field (Some kws) =
           Inr (slice_to (sort_reverse (map (dict_of (Some kws))
                  (filter (\<lambda>p. kws \<noteq> [] \<or> utc_now w - days * usec_per_day \<le> published p) items)))
                  max_results)
       \<and> (kws \<noteq> [] \<longrightarrow> collect (Some kws) cutoff items [] = Inr (map (dict_of (Some kws)) items))
       \<and> (kws = [] \<longrightarrow>
            collect (Some kws) cutoff items [] =
              Inr (map (dict_of (Some kws))
                     (filter (\<lambda>p. \<not> published p < utc_now w - days * usec_per_day) items)))"
proof -
  have c: "cutoff = utc_now w - days * usec_per_day"
    using assms(2) by (rule cutoff_date_Inr)
  have k: "collect (Some kws) cutoff items [] =
           Inr (map (dict_of (Some kws))
                  (filter (\<lambda>p. kws \<noteq> [] \<or> utc_now w - days * usec_per_day \<le> published p) items))"
    using collect_Some [of kws cutoff items "[]"] c by simp
  have s: "search_papers w days query_type max_results field (Some kws) =
           Inr (slice_to (sort_reverse (map (dict_of (Some kws))
                  (filter (\<lambda>p. kws \<noteq> [] \<or> utc_now w - days * usec_per_day \<le> published p) items)))
                  max_results)"
    using assms k by (simp add: search_papers_def collect_feed_def)
  have a: "kws \<noteq> [] \<longrightarrow> collect (Some kws) cutoff items [] = Inr (map (dict_of (Some kws)) items)"
    using k by simp
  have b: "kws = [] \<longrightarrow>
            collect (Some kws) cutoff items [] =
              Inr (map (dict_of (Some kws))
                     (filter (\<lambda>p. \<not> published p < utc_now w - days * usec_per_day) items))"
    using k by (auto simp: not_less)
  from k s a b show ?thesis by blast
qed

theorem retention_rule_witness:
  "\<not> is_arxiv_id ''moe''
   \<and> cutoff_date (utc_now example_world) 7 = Inr 1793059200000000
   \<and> published paper_old < 1793059200000000
   \<and> collect (Some [''moe'']) 1793059200000000 [paper_moe, paper_old] [] =
       Inr [dict_of (Some [''moe'']) paper_moe, dict_of (Some [''moe'']) paper_old]
   \<and> collect (Some []) 1793059200000000 [paper_both, paper_old] [] =
       Inr [dict_of (Some []) paper_both]"
proof -
  have h1: "\<not> is_arxiv_id ''moe''" by code_simp
  have h2: "cutoff_date (utc_now example_world) 7 = Inr 1793059200000000" by code_simp
  have h2': "cutoff_date (utc_now recent_world) 7 = Inr 1793059200000000" by code_simp
  have h3: "query_results example_world (final_query ''moe'' None (Some [''moe'']))
              (max 100 (10 * 2)) = ([paper_moe, paper_old], None)"
    by (simp add: example_world_def two_papers_def)
  have h3': "query_results recent_world (final_query ''moe'' None (Some []))
              (max 100 (10 * 2)) = ([paper_both, paper_old], None)"
    by (simp add: recent_world_def recent_and_old_def)
  have o: "published paper_old < 1793059200000000" by (simp add: paper_old_def)
  have n: "\<not> published paper_both < 1793059200000000" by (simp add: paper_both_def)
  have u: "utc_now example_world - 7 * usec_per_day = 1793059200000000"
    "utc_now recent_world - 7 * usec_per_day = 1793059200000000"
    by (simp_all add: example_world_def recent_world_def usec_per_day_def)
  show ?thesis
    using h1 h2 o n u retention_rule [OF h1 h2 h3] retention_rule [OF h1 h2' h3']
    by simp
qed

text \<open>
  Claim C6. When the keywords are absent or the empty list, every paper that
  \<open>search_papers\<close> returns has the relevance score 1, from an identifier lookup as from a
  search.
\<close>

theorem empty_keywords_score_one:
  assumes "kwds = None \<or> kwds = Some []"
    and "search_papers w days query_type max_results field kwds = Inr papers"
  shows "\<forall>p\<in>set papers. relevance_score p = 1"
proof (cases "is_arxiv_id query_type")
  case True
  with assms(2) show ?thesis using id_lookup_scores by (simp add: search_papers_def)
next
  case False
  with assms(2) obtain cutoff ps where
    c: "collect_feed kwds cutoff
          (query_results w (final_query query_type field kwds) (max 100 (max_results * 2)))
        = Inr ps"
    and r: "papers = slice_to (sort_reverse ps) max_results"
    by (auto simp: search_papers_def Let_def split: sum.splits)
  from collect_feed_scores [OF assms(1) c] have "\<forall>p\<in>set ps. relevance_score p = 1" .
  moreover have "set papers \<subseteq> set ps"
    using r set_slice_to [of "sort_reverse ps" max_results] by (simp add: set_sort_reverse)
  ultimately show ?thesis by blast
qed

theorem empty_keywords_score_one_witness:
  "search_papers recent_world 7 ''moe'' 10 None (Some []) = Inr [to_dict paper_both 1]
   \<and> relevance_score (to_dict paper_both 1) = 1"
proof -
  have e: "search_papers recent_world 7 ''moe'' 10 None (Some []) = Inr [to_dict paper_both 1]"
    by code_simp
  have "\<forall>p\<in>set [to_dict paper_both 1]. relevance_score p = 1"
    using empty_keywords_score_one [of "Some []", OF _ e] by simp
  with e show ?thesis by simp
qed

text \<open>
  Claim C7. When \<open>max_results\<close> is positive, the list that \<open>search_papers\<close> returns has at
  most \<open>max_results\<close> entries: a search keeps the head of the sorted list, an identifier
  lookup returns at most one record.
\<close>

theorem result_length_bound:
  assumes "0 < max_results"
    and "search_papers w days query_type max_results field kwds = Inr papers"
  shows "int (length papers) \<le> max_results"
proof (cases "is_arxiv_id query_type")
  case True
  with assms(2) have "length papers \<le> 1" using id_lookup_scores by (simp add: search_papers_def)
  with assms(1) show ?thesis by simp
next
  case False
  with assms(2) obtain ps where "papers = slice_to (sort_reverse ps) max_results"
    by (auto simp: search_papers_def Let_def split: sum.splits)
  with assms(1) show ?thesis using length_slice_to [of max_results "sort_reverse ps"] by simp
qed

theorem result_length_bound_witness:
  "(0::int) < 1
   \<and> search_papers example_world 7 ''moe'' 1 None (Some [''moe'']) = Inr [to_dict paper_old 0]
   \<and> int (length [to_dict paper_old 0]) \<le> 1"
proof -
  have p: "(0::int) < 1" by simp
  have e: "search_papers example_world 7 ''moe'' 1 None (Some [''moe'']) = Inr [to_dict paper_old 0]"
    by code_simp
  show ?thesis using p e result_length_bound [OF p e] by simp
qed

text \<open>
  Claim C8. In an identifier lookup, a generator that ends without a record gives the empty
  list and no error, and a generator that yields a record gives exactly that one record,
  with the relevance score 1.
\<close>

theorem identifier_lookup_results:
  assumes "is_arxiv_id query_type"
  shows "(id_results w query_type = ([], None) \<longrightarrow>
            search_papers w days query_type max_results field kwds = Inr [])
       \<and> (id_results w query_type = (paper # rest, ending) \<longrightarrow>
            search_papers w days query_type max_results field kwds = Inr [to_dict paper 1]
            \<and> relevance_score (to_dict paper 1) = 1)"
  using assms by (simp add: search_papers_def id_lookup_def to_dict_def)

theorem identifier_lookup_results_witness:
  "is_arxiv_id ''2103.03404'' \<and> is_arxiv_id ''2103.0340''
   \<and> id_results example_world ''2103.0340'' = ([], None)
   \<and> search_papers example_world 7 ''2103.0340'' 10 None None = Inr []
   \<and> id_results example_world ''2103.03404'' = ([paper_old], None)
   \<and> search_papers example_world 7 ''2103.03404'' 10 None None = Inr [to_dict paper_old 1]"
proof -
  have h: "is_arxiv_id ''2103.03404''" by code_simp
  have h': "is_arxiv_id ''2103.0340''" by code_simp
  have m: "id_results example_world ''2103.0340'' = ([], None)" by code_simp
  have f: "id_results example_world ''2103.03404'' = ([paper_old], None)" by code_simp
  show ?thesis
    using h h' m f identifier_lookup_results [OF h, where w = example_world and paper = paper_old
        and rest = "[]" and ending = None and days = 7 and max_results = 10 and field = None
        and kwds = None]
      identifier_lookup_results [OF h', where w = example_world and days = 7
        and max_results = 10 and field = None and kwds = None]
    by simp
qed

text \<open>
  Claim C9. For the empty list \<open>format_papers\<close> returns the fixed sentence that no paper
  was found, whatever \<open>show_score\<close> is. The function is total and returns a string: it has
  no error value and no state.
\<close>

theorem format_papers_empty: "format_papers fmt2 [] show_score = no_results"
  by (simp add: format_papers_def)

section \<open>The matcher and the language of the pattern\<close>

lemma nullable_lang: "nullable r \<longleftrightarrow> [] \<in> lang r"
  by (induction r) (auto intro: star_nil)

lemma star_cons_split:
  assumes "x \<in> star A" and "x = c # w"
  shows "\<exists>u v. w = u @ v \<and> c # u \<in> A \<and> v \<in> star A"
  using assms
proof (induction arbitrary: w rule: star.induct)
  case star_nil
  then show ?case by simp
next
  case (star_app u v)
  show ?case
  proof (cases u)
    case Nil
    with star_app show ?thesis by simp
  next
    case (Cons d u')
    with star_app.prems have "d = c" and "w = u' @ v" by simp_all
    with Cons star_app.hyps show ?thesis by blast
  qed
qed

lemma star_cons: "c # w \<in> star A \<longleftrightarrow> (\<exists>u v. w = u @ v \<and> c # u \<in> A \<and> v \<in> star A)"
proof
  assume "c # w \<in> star A"
  then show "\<exists>u v. w = u @ v \<and> c # u \<in> A \<and> v \<in> star A"
    using star_cons_split by blast
next
  assume "\<exists>u v. w = u @ v \<and> c # u \<in> A \<and> v \<in> star A"
  then obtain u v where "w = u @ v" "c # u \<in> A" "v \<in> star A" by blast
  then show "c # w \<in> star A" using star_app [of "c # u" A v] by simp
qed

lemma cons_in_lang_Cat:
  "c # w \<in> lang (Cat r s) \<longleftrightarrow>
     ([] \<in> lang r \<and> c # w \<in> lang s) \<or> (\<exists>u v. w = u @ v \<and> c # u \<in> lang r \<and> v \<in> lang s)"
  by (auto simp: Cons_eq_append_conv)

lemma lang_deriv: "w \<in> lang (deriv c r) \<longleftrightarrow> c # w \<in> lang r"
proof (induction r arbitrary: w)
  case (Cat r s)
  show ?case unfolding cons_in_lang_Cat using Cat by (auto simp: nullable_lang)
next
  case (Star r)
  then show ?case by (auto simp: star_cons)
qed auto

lemma re_fullmatch_lang: "re_fullmatch r s \<longleftrightarrow> s \<in> lang r"
  by (induction s arbitrary: r) (simp_all add: nullable_lang lang_deriv)

lemma re_match_lang: "re_match r s \<longleftrightarrow> (\<exists>p t. s = p @ t \<and> p \<in> lang r)"
proof (induction s arbitrary: r)
  case Nil
  show ?case by (simp add: nullable_lang)
next
  case (Cons c s)
  have "(\<exists>p t. c # s = p @ t \<and> p \<in> lang r) \<longleftrightarrow>
          [] \<in> lang r \<or> (\<exists>p t. s = p @ t \<and> c # p \<in> lang r)"
    by (auto simp: Cons_eq_append_conv)
  with Cons show ?case by (simp add: nullable_lang lang_deriv)
qed

lemma in_lang_Cat_Digit:
  "w \<in> lang (Cat Digit r) \<longleftrightarrow> (\<exists>c v. w = c # v \<and> is_digit c \<and> v \<in> lang r)"
proof
  assume "w \<in> lang (Cat Digit r)"
  then show "\<exists>c v. w = c # v \<and> is_digit c \<and> v \<in> lang r" by auto
next
  assume "\<exists>c v. w = c # v \<and> is_digit c \<and> v \<in> lang r"
  then obtain c v where "w = c # v" "is_digit c" "v \<in> lang r" by blast
  then have "\<exists>u v'. w = u @ v' \<and> u \<in> lang Digit \<and> v' \<in> lang r"
    by (intro exI [of _ "[c]"] exI [of _ v]) simp
  then show "w \<in> lang (Cat Digit r)" by simp
qed

lemma in_lang_Cat_Lit: "w \<in> lang (Cat (Lit d) r) \<longleftrightarrow> (\<exists>v. w = d # v \<and> v \<in> lang r)"
  by auto

lemma in_lang_Cat_assoc: "w \<in> lang (Cat (Cat a b) c) \<longleftrightarrow> w \<in> lang (Cat a (Cat b c))"
proof
  assume "w \<in> lang (Cat (Cat a b) c)"
  then obtain x y z where "w = (x @ y) @ z" "x \<in> lang a" "y \<in> lang b" "z \<in> lang c"
    by auto
  then have "\<exists>u v. w = u @ v \<and> u \<in> lang a \<and> v \<in> lang (Cat b c)"
    by (intro exI [of _ x] exI [of _ "y @ z"]) auto
  then show "w \<in> lang (Cat a (Cat b c))" by simp
next
  assume "w \<in> lang (Cat a (Cat b c))"
  then obtain x y z where "w = x @ (y @ z)" "x \<in> lang a" "y \<in> lang b" "z \<in> lang c"
    by auto
  then have "\<exists>u v. w = u @ v \<and> u \<in> lang (Cat a b) \<and> v \<in> lang c"
    by (intro exI [of _ "x @ y"] exI [of _ z]) auto
  then show "w \<in> lang (Cat (Cat a b) c)" by simp
qed

lemma in_lang_Cat_Eps: "w \<in> lang (Cat Eps r) \<longleftrightarrow> w \<in> lang r"
  by simp

lemma rep_4: "rep 4 k r = Cat r (Cat r (Cat r (Cat r (rep_upto k r))))"
  by (simp add: eval_nat_numeral)

lemma id_tail_nil: "[] \<in> lang id_tail"
  by (simp add: id_tail_def opt_def)

lemma in_lang_pattern_nested:
  "p \<in> lang arxiv_id_pattern \<longleftrightarrow>
     p \<in> lang (Cat Digit (Cat Digit (Cat Digit (Cat Digit (Cat (Lit (CHR ''.''))
            (Cat Digit (Cat Digit (Cat Digit (Cat Digit id_tail)))))))))"
  unfolding arxiv_id_pattern_def id_tail_def
  by (simp only: rep_4 rep_upto.simps(1) in_lang_Cat_assoc in_lang_Cat_Eps
        in_lang_Cat_Digit in_lang_Cat_Lit)

lemma digits4:
  "w \<in> lang (Cat Digit (Cat Digit (Cat Digit (Cat Digit r)))) \<longleftrightarrow>
     (\<exists>a b c d v. w = a # b # c # d # v
        \<and> is_digit a \<and> is_digit b \<and> is_digit c \<and> is_digit d \<and> v \<in> lang r)"
  by (simp only: in_lang_Cat_Digit) auto

lemma in_lang_pattern:
  "p \<in> lang arxiv_id_pattern \<longleftrightarrow>
     (\<exists>d1 d2 d3 d4 e1 e2 e3 e4 v.
        p = d1 # d2 # d3 # d4 # CHR ''.'' # e1 # e2 # e3 # e4 # v
        \<and> is_digit d1 \<and> is_digit d2 \<and> is_digit d3 \<and> is_digit d4
        \<and> is_digit e1 \<and> is_digit e2 \<and> is_digit e3 \<and> is_digit e4 \<and> v \<in> lang id_tail)"
  (is "?L \<longleftrightarrow> ?R")
proof
  assume ?L
  then obtain d1 d2 d3 d4 v1 where
    1: "p = d1 # d2 # d3 # d4 # v1" "is_digit d1" "is_digit d2" "is_digit d3" "is_digit d4"
    and v1: "v1 \<in> lang (Cat (Lit (CHR ''.''))
               (Cat Digit (Cat Digit (Cat Digit (Cat Digit id_tail)))))"
    unfolding in_lang_pattern_nested digits4 by blast
  from v1 obtain v2 where 2: "v1 = CHR ''.'' # v2"
    and v2: "v2 \<in> lang (Cat Digit (Cat Digit (Cat Digit (Cat Digit id_tail))))"
    unfolding in_lang_Cat_Lit by blast
  from v2 obtain e1 e2 e3 e4 v where
    3: "v2 = e1 # e2 # e3 # e4 # v" "is_digit e1" "is_digit e2" "is_digit e3" "is_digit e4"
      "v \<in> lang id_tail"
    unfolding digits4 by blast
  from 1 2 3 show ?R by blast
next
  assume ?R
  then obtain d1 d2 d3 d4 e1 e2 e3 e4 v where
    p: "p = d1 # d2 # d3 # d4 # CHR ''.'' # e1 # e2 # e3 # e4 # v"
    and d: "is_digit d1" "is_digit d2" "is_digit d3" "is_digit d4"
      "is_digit e1" "is_digit e2" "is_digit e3" "is_digit e4" "v \<in> lang id_tail"
    by blast
  have "e1 # e2 # e3 # e4 # v \<in> lang (Cat Digit (Cat Digit (Cat Digit (Cat Digit id_tail))))"
    unfolding digits4 using d by blast
  then have "CHR ''.'' # e1 # e2 # e3 # e4 # v
      \<in> lang (Cat (Lit (CHR ''.'')) (Cat Digit (Cat Digit (Cat Digit (Cat Digit id_tail)))))"
    unfolding in_lang_Cat_Lit by blast
  then have "d1 # d2 # d3 # d4 # CHR ''.'' # e1 # e2 # e3 # e4 # v
      \<in> lang (Cat Digit (Cat Digit (Cat Digit (Cat Digit (Cat (Lit (CHR ''.''))
            (Cat Digit (Cat Digit (Cat Digit (Cat Digit id_tail)))))))))"
    unfolding digits4 using d by blast
  with p show ?L unfolding in_lang_pattern_nested by simp
qed

lemma is_arxiv_id_iff:
  "is_arxiv_id s \<longleftrightarrow>
     (\<exists>d1 d2 d3 d4 e1 e2 e3 e4 rest.
        s = d1 # d2 # d3 # d4 # CHR ''.'' # e1 # e2 # e3 # e4 # rest
        \<and> is_digit d1 \<and> is_digit d2 \<and> is_digit d3 \<and> is_digit d4
        \<and> is_digit e1 \<and> is_digit e2 \<and> is_digit e3 \<and> is_digit e4)"
  (is "?L \<longleftrightarrow> ?R")
proof
  assume ?L
  then obtain p t where s: "s = p @ t" and p: "p \<in> lang arxiv_id_pattern"
    by (auto simp: is_arxiv_id_def re_match_lang)
  from p obtain d1 d2 d3 d4 e1 e2 e3 e4 v where
    "p = d1 # d2 # d3 # d4 # CHR ''.'' # e1 # e2 # e3 # e4 # v"
    "is_digit d1" "is_digit d2" "is_digit d3" "is_digit d4"
    "is_digit e1" "is_digit e2" "is_digit e3" "is_digit e4"
    unfolding in_lang_pattern by blast
  with s have "s = d1 # d2 # d3 # d4 # CHR ''.'' # e1 # e2 # e3 # e4 # (v @ t)
      \<and> is_digit d1 \<and> is_digit d2 \<and> is_digit d3 \<and> is_digit d4
      \<and> is_digit e1 \<and> is_digit e2 \<and> is_digit e3 \<and> is_digit e4" by simp
  then show ?R by blast
next
  assume ?R
  then obtain d1 d2 d3 d4 e1 e2 e3 e4 rest where
    s: "s = d1 # d2 # d3 # d4 # CHR ''.'' # e1 # e2 # e3 # e4 # rest"
    and d: "is_digit d1" "is_digit d2" "is_digit d3" "is_digit d4"
      "is_digit e1" "is_digit e2" "is_digit e3" "is_digit e4"
    by blast
  have "[d1, d2, d3, d4, CHR ''.'', e1, e2, e3, e4] \<in> lang arxiv_id_pattern"
    unfolding in_lang_pattern using d id_tail_nil by blast
  moreover have "s = [d1, d2, d3, d4, CHR ''.'', e1, e2, e3, e4] @ rest" using s by simp
  ultimately have "re_match arxiv_id_pattern s" unfolding re_match_lang by blast
  with s show ?L by (simp add: is_arxiv_id_def)
qed

section \<open>The order of the sort\<close>

lemma str_lt_irrefl: "\<not> str_lt s s"
  by (induction s) auto

lemma str_lt_trans: "str_lt s t \<Longrightarrow> str_lt t u \<Longrightarrow> str_lt s u"
proof (induction s t arbitrary: u rule: str_lt.induct)
  case 1
  then show ?case by simp
next
  case (2 d t)
  then show ?case by (cases u) simp_all
next
  case (3 c s)
  then show ?case by simp
next
  case (4 c s d t)
  show ?case
  proof (cases u)
    case Nil
    with 4 show ?thesis by simp
  next
    case (Cons e u')
    from "4.prems"(1) have st: "(of_char c :: nat) < of_char d \<or> (c = d \<and> str_lt s t)" by simp
    from "4.prems"(2) Cons have tu: "(of_char d :: nat) < of_char e \<or> (d = e \<and> str_lt t u')"
      by simp
    from st tu consider "(of_char c :: nat) < of_char e" | "c = d" "d = e" "str_lt s t" "str_lt t u'"
      by (auto intro: less_trans)
    then show ?thesis
    proof cases
      case 1
      with Cons show ?thesis by simp
    next
      case 2
      then have "str_lt s u'" using "4.IH" by blast
      with 2 Cons show ?thesis by simp
    qed
  qed
qed

lemma str_lt_total: "str_lt s t \<or> s = t \<or> str_lt t s"
proof (induction s t rule: str_lt.induct)
  case (4 c s d t)
  have "(of_char c :: nat) < of_char d \<or> c = d \<or> (of_char d :: nat) < of_char c"
    using linorder_less_linear [of "of_char c :: nat" "of_char d"] by auto
  with 4 show ?case by auto
qed simp_all

lemma key_lt_irrefl: "\<not> key_lt a a"
  by (cases a) (simp add: str_lt_irrefl)

lemma key_lt_trans: "key_lt a b \<Longrightarrow> key_lt b c \<Longrightarrow> key_lt a c"
  by (cases a; cases b; cases c) (auto intro: str_lt_trans)

lemma key_lt_total: "key_lt a b \<or> a = b \<or> key_lt b a"
proof (cases a; cases b)
  fix x s y t
  assume ab: "a = (x, s)" "b = (y, t)"
  consider "x < y" | "y < x" | "x = y" by (rule linorder_cases)
  then show ?thesis
  proof cases
    case 3
    with ab str_lt_total [of s t] show ?thesis by auto
  qed (use ab in auto)
qed

lemma key_lt_asym: "key_lt a b \<Longrightarrow> \<not> key_lt b a"
  using key_lt_trans [of a b a] key_lt_irrefl [of a] by blast

lemma key_lt_negtrans:
  assumes "\<not> key_lt a b" and "\<not> key_lt b c"
  shows "\<not> key_lt a c"
proof
  assume ac: "key_lt a c"
  from assms(1) key_lt_total [of a b] consider "a = b" | "key_lt b a" by blast
  then show False
  proof cases
    case 1
    with ac assms(2) show False by simp
  next
    case 2
    from 2 ac have "key_lt b c" by (rule key_lt_trans)
    with assms(2) show False by simp
  qed
qed

lemma sorted_insert_reverse:
  "sorted_wrt not_before ys \<Longrightarrow> sorted_wrt not_before (insert_reverse x ys)"
proof (induction ys)
  case Nil
  show ?case by simp
next
  case (Cons y ys)
  show ?case
  proof (cases "key_lt (key_of x) (key_of y)")
    case True
    then have "not_before y x" using key_lt_asym by (simp add: not_before_def)
    with Cons True show ?thesis by (auto simp: set_insert_reverse)
  next
    case False
    then have xy: "not_before x y" by (simp add: not_before_def)
    have "\<forall>z\<in>set ys. not_before x z"
    proof
      fix z assume "z \<in> set ys"
      with Cons.prems have "not_before y z" by simp
      with xy show "not_before x z" unfolding not_before_def by (rule key_lt_negtrans)
    qed
    with Cons.prems xy False show ?thesis by simp
  qed
qed

lemma sorted_sort_reverse: "sorted_wrt not_before (sort_reverse xs)"
  by (induction xs) (simp_all add: sort_reverse_def sorted_insert_reverse)

lemma sorted_slice_to: "sorted_wrt P xs \<Longrightarrow> sorted_wrt P (slice_to xs n)"
  by (simp add: slice_to_def sorted_wrt_take)

lemma not_before_iff:
  "not_before x y \<longleftrightarrow>
     relevance_score x < relevance_score y
     \<or> (relevance_score x = relevance_score y
        \<and> \<not> str_lt (published_date x) (published_date y))"
  by (auto simp: not_before_def key_of_def)

lemma search_papers_order:
  assumes "search_papers w days query_type max_results field kwds = Inr papers"
  shows "sorted_wrt not_before papers"
proof (cases "is_arxiv_id query_type")
  case True
  with assms have "length papers \<le> 1" using id_lookup_scores by (simp add: search_papers_def)
  then show ?thesis by (cases papers) simp_all
next
  case False
  with assms obtain ps where "papers = slice_to (sort_reverse ps) max_results"
    by (auto simp: search_papers_def Let_def split: sum.splits)
  then show ?thesis by (simp add: sorted_slice_to sorted_sort_reverse)
qed

section \<open>Routing, ordering and the absent keywords\<close>

lemma re_fullmatch_is_arxiv_id:
  assumes "re_fullmatch arxiv_id_pattern p"
  shows "is_arxiv_id (p @ trailing)"
proof -
  from assms have p: "p \<in> lang arxiv_id_pattern" by (simp add: re_fullmatch_lang)
  then have "re_match arxiv_id_pattern (p @ trailing)" unfolding re_match_lang by blast
  moreover from p have "p \<noteq> []" unfolding in_lang_pattern by blast
  ultimately show ?thesis by (simp add: is_arxiv_id_def)
qed

lemma search_papers_query:
  assumes "\<not> is_arxiv_id query_type"
  shows "search_papers w days query_type max_results field kwds =
           (case cutoff_date (utc_now w) days of
              Inl e \<Rightarrow> Inl e
            | Inr cutoff \<Rightarrow>
                (case collect_feed kwds cutoff
                        (query_results w (final_query query_type field kwds)
                           (max 100 (max_results * 2))) of
                   Inl e \<Rightarrow> Inl e
                 | Inr papers \<Rightarrow> Inr (slice_to (sort_reverse papers) max_results)))"
  using assms by (simp add: search_papers_def)

text \<open>
  Claim C1 (the code departs from it). For the keyword \<open>moe\<close> and a generator that yields
  a paper of score \<open>2/3\<close> and then a paper of score \<open>0\<close>, \<open>search_papers\<close> returns the
  paper of score \<open>0\<close> first: the key holds the negated score and the sort is reversed, so
  the scores come out in ascending order. With \<open>max_results = 1\<close> only the paper of score
  \<open>0\<close> is returned.
\<close>

theorem sort_puts_lowest_score_first:
  "search_papers example_world 7 ''moe'' 10 None (Some [''moe'']) =
     Inr [to_dict paper_old 0, to_dict paper_moe (2 / 3)]
   \<and> relevance_score (to_dict paper_old 0) < relevance_score (to_dict paper_moe (2 / 3))
   \<and> search_papers example_world 7 ''moe'' 1 None (Some [''moe'']) = Inr [to_dict paper_old 0]"
proof -
  have "search_papers example_world 7 ''moe'' 10 None (Some [''moe'']) =
     Inr [to_dict paper_old 0, to_dict paper_moe (2 / 3)]"
    by code_simp
  moreover have "relevance_score (to_dict paper_old 0) < relevance_score (to_dict paper_moe (2 / 3))"
    by (simp add: to_dict_def)
  moreover have "search_papers example_world 7 ''moe'' 1 None (Some [''moe'']) =
     Inr [to_dict paper_old 0]"
    by code_simp
  ultimately show ?thesis by simp
qed

text \<open>
  Claim C3, as stated, fails: with the keywords absent and a generator that yields no
  record, the loop body never runs, \<open>search_papers\<close> returns the empty list and the tool
  answers with the sentence that no paper was found, which does not start with the error
  marker.
\<close>

theorem none_keywords_counterexample:
  "\<not> is_arxiv_id ''moe''
   \<and> search_papers silent_world 7 ''moe'' 100 None None = Inr []
   \<and> handle_call_tool silent_world two_decimals ''papersearch'' None = Inr no_results
   \<and> \<not> starts_with error_marker no_results"
proof -
  have "\<not> is_arxiv_id ''moe''" by code_simp
  moreover have "search_papers silent_world 7 ''moe'' 100 None None = Inr []" by code_simp
  moreover have "handle_call_tool silent_world two_decimals ''papersearch'' None = Inr no_results"
    by code_simp
  moreover have "\<not> starts_with error_marker no_results" by code_simp
  ultimately show ?thesis by simp
qed

text \<open>
  Claim C3, amended. In a search that is not an identifier lookup, with the keywords absent
  and the cutoff date computed: when the generator yields at least one record,
  \<open>search_papers\<close> raises the \<open>TypeError\<close> of \<open>len(None)\<close> at the first record and the tool
  returns the error marker followed by the message of that error; when the generator yields
  no record and ends, \<open>search_papers\<close> returns the empty list and the tool returns the
  sentence that no paper was found. With the keywords absent the loop never appends a
  record, so no record is scored or compared with the cutoff.
\<close>

theorem none_keywords_type_error:
  assumes "\<not> is_arxiv_id query_type"
    and "cutoff_date (utc_now w) days = Inr cutoff"
  shows "(query_results w (final_query query_type field None) (max 100 (max_results * 2))
            = (paper # rest, ending) \<longrightarrow>
            search_papers w days query_type max_results field None = Inl len_none
            \<and> handle_call_tool w fmt ''papersearch''
                (Some \<lparr>arg_days = Some days, arg_query_type = Some query_type,
                       arg_max_results = Some max_results, arg_field = field,
                       arg_keywords = None\<rparr>)
              = Inr (error_marker @ ''object of type 'NoneType' has no len()''))
       \<and> (query_results w (final_query query_type field None) (max 100 (max_results * 2))
            = ([], None) \<longrightarrow>
            search_papers w days query_type max_results field None = Inr []
            \<and> handle_call_tool w fmt ''papersearch''
                (Some \<lparr>arg_days = Some days, arg_query_type = Some query_type,
                       arg_max_results = Some max_results, arg_field = field,
                       arg_keywords = None\<rparr>)
              = Inr no_results)
       \<and> collect None cutoff items papers = (if items = [] then Inr papers else Inl len_none)"
proof (intro conjI impI)
  assume f: "query_results w (final_query query_type field None) (max 100 (max_results * 2))
            = (paper # rest, ending)"
  show s: "search_papers w days query_type max_results field None = Inl len_none"
    using assms f by (simp add: search_papers_query collect_feed_def)
  show "handle_call_tool w fmt ''papersearch''
                (Some \<lparr>arg_days = Some days, arg_query_type = Some query_type,
                       arg_max_results = Some max_results, arg_field = field,
                       arg_keywords = None\<rparr>)
              = Inr (error_marker @ ''object of type 'NoneType' has no len()'')"
    using s by (simp add: handle_call_tool_def get_default_def len_none_def)
next
  assume f: "query_results w (final_query query_type field None) (max 100 (max_results * 2))
            = ([], None)"
  show s: "search_papers w days query_type max_results field None = Inr []"
    using assms f
    by (simp add: search_papers_query collect_feed_def sort_reverse_def slice_to_def)
  show "handle_call_tool w fmt ''papersearch''
                (Some \<lparr>arg_days = Some days, arg_query_type = Some query_type,
                       arg_max_results = Some max_results, arg_field = field,
                       arg_keywords = None\<rparr>)
              = Inr no_results"
    using s by (simp add: handle_call_tool_def get_default_def format_papers_def)
next
  show "collect None cutoff items papers = (if items = [] then Inr papers else Inl len_none)"
    by (rule collect_None)
qed

theorem none_keywords_type_error_witness:
  "\<not> is_arxiv_id ''moe''
   \<and> cutoff_date (utc_now example_world) 7 = Inr 1793059200000000
   \<and> search_papers example_world 7 ''moe'' 100 None None = Inl len_none
   \<and> handle_call_tool example_world two_decimals ''papersearch''
       (Some \<lparr>arg_days = Some 7, arg_query_type = Some ''moe'', arg_max_results = Some 100,
              arg_field = None, arg_keywords = None\<rparr>)
     = Inr (error_marker @ ''object of type 'NoneType' has no len()'')
   \<and> search_papers silent_world 7 ''moe'' 100 None None = Inr []"
proof -
  have h1: "\<not> is_arxiv_id ''moe''" by code_simp
  have h2: "cutoff_date (utc_now example_world) 7 = Inr 1793059200000000" by code_simp
  have h2': "cutoff_date (utc_now silent_world) 7 = Inr 1793059200000000" by code_simp
  have f: "query_results example_world (final_query ''moe'' None None) (max 100 (100 * 2))
             = (paper_moe # [paper_old], None)"
    by (simp add: example_world_def two_papers_def)
  have f': "query_results silent_world (final_query ''moe'' None None) (max 100 (100 * 2))
             = ([], None)"
    by (simp add: silent_world_def no_papers_def)
  show ?thesis
    using h1 h2 f f'
      none_keywords_type_error [OF h1 h2, where field = None and max_results = 100
        and paper = paper_moe and rest = "[paper_old]" and ending = None
        and fmt = two_decimals]
      none_keywords_type_error [OF h1 h2', where field = None and max_results = 100]
    by simp
qed

text \<open>
  Claim C5. The strings \<open>2103.03404\<close> and \<open>2103.0340\<close> match the identifier pattern and
  \<open>210.03404\<close> does not. When \<open>query_type\<close> matches (\<open>is_arxiv_id\<close>, which a match of the
  whole string implies), \<open>search_papers\<close> is the identifier lookup of that very string and
  its result is the same for all values of \<open>days\<close>, \<open>max_results\<close>, \<open>field\<close> and the
  keywords. For \<open>210.03404\<close> the function runs the search branch, and with no field and no
  keywords the query is the string itself.
\<close>

theorem identifier_routing:
  "is_arxiv_id ''2103.03404'' \<and> is_arxiv_id ''2103.0340'' \<and> \<not> is_arxiv_id ''210.03404''
   \<and> (re_fullmatch arxiv_id_pattern query_type \<longrightarrow> is_arxiv_id query_type)
   \<and> (is_arxiv_id query_type \<longrightarrow>
        search_papers w days query_type max_results field kwds = id_lookup w query_type
        \<and> search_papers w days query_type max_results field kwds =
            search_papers w days' query_type max_results' field' kwds')
   \<and> search_papers w days ''210.03404'' max_results field kwds =
       (case cutoff_date (utc_now w) days of
          Inl e \<Rightarrow> Inl e
        | Inr cutoff \<Rightarrow>
            (case collect_feed kwds cutoff
                    (query_results w (final_query ''210.03404'' field kwds)
                       (max 100 (max_results * 2))) of
               Inl e \<Rightarrow> Inl e
             | Inr papers \<Rightarrow> Inr (slice_to (sort_reverse papers) max_results)))
   \<and> final_query ''210.03404'' None None = ''210.03404''"
proof -
  have a: "is_arxiv_id ''2103.03404''" by code_simp
  have b: "is_arxiv_id ''2103.0340''" by code_simp
  have c: "\<not> is_arxiv_id ''210.03404''" by code_simp
  have d: "re_fullmatch arxiv_id_pattern query_type \<longrightarrow> is_arxiv_id query_type"
    using re_fullmatch_is_arxiv_id [of query_type "[]"] by simp
  have e: "is_arxiv_id query_type \<longrightarrow>
        search_papers w days query_type max_results field kwds = id_lookup w query_type
        \<and> search_papers w days query_type max_results field kwds =
            search_papers w days' query_type max_results' field' kwds'"
    by (simp add: search_papers_def)
  have f: "final_query ''210.03404'' None None = ''210.03404''" by code_simp
  have g: "search_papers w days ''210.03404'' max_results field kwds =
       (case cutoff_date (utc_now w) days of
          Inl e \<Rightarrow> Inl e
        | Inr cutoff \<Rightarrow>
            (case collect_feed kwds cutoff
                    (query_results w (final_query ''210.03404'' field kwds)
                       (max 100 (max_results * 2))) of
               Inl e \<Rightarrow> Inl e
             | Inr papers \<Rightarrow> Inr (slice_to (sort_reverse papers) max_results)))"
    by (rule search_papers_query [OF c])
  show ?thesis by (intro conjI; fact)
qed

theorem identifier_routing_witness:
  "is_arxiv_id ''2103.03404''
   \<and> search_papers example_world 7 ''2103.03404'' 10 (Some ''cs.LG'') (Some [''moe''])
       = Inr [to_dict paper_old 1]
   \<and> search_papers example_world 7 ''2103.03404'' 10 (Some ''cs.LG'') (Some [''moe''])
       = search_papers example_world 1000000000 ''2103.03404'' 0 None None"
proof -
  have a: "is_arxiv_id ''2103.03404''" by code_simp
  have l: "id_lookup example_world ''2103.03404'' = Inr [to_dict paper_old 1]" by code_simp
  have r: "search_papers example_world 1000000000 ''2103.03404'' 0 None None
             = Inr [to_dict paper_old 1]"
    by code_simp
  show ?thesis
    using a l r identifier_routing [where query_type = "''2103.03404''" and w = example_world
        and days = 7 and max_results = 10 and field = "Some ''cs.LG''"
        and kwds = "Some [''moe'']" and days' = 1000000000 and max_results' = 0
        and field' = None and kwds' = None]
    by simp
qed

text \<open>
  Claim C10. The pattern is anchored at the start only: when a string \<open>p\<close> matches the
  pattern as a whole, \<open>p\<close> followed by any characters is taken for an identifier, and the
  lookup is made with the whole string, trailing characters included.
\<close>

theorem prefix_anchoring:
  assumes "re_fullmatch arxiv_id_pattern p"
  shows "is_arxiv_id (p @ trailing)
       \<and> search_papers w days (p @ trailing) max_results field kwds
           = id_lookup w (p @ trailing)
       \<and> id_lookup w (p @ trailing) =
           (case id_results w (p @ trailing) of
              (paper # rest, ending) \<Rightarrow> Inr [to_dict paper 1]
            | ([], None) \<Rightarrow> Inr []
            | ([], Some e) \<Rightarrow> Inl e)"
  using re_fullmatch_is_arxiv_id [OF assms, of trailing]
  by (simp add: search_papers_def id_lookup_def)

theorem prefix_anchoring_witness:
  "re_fullmatch arxiv_id_pattern ''2103.03404''
   \<and> is_arxiv_id ''2103.03404 survey''
   \<and> search_papers example_world 7 ''2103.03404 survey'' 10 None None
       = id_lookup example_world ''2103.03404 survey''
   \<and> id_lookup example_world ''2103.03404 survey'' = Inr []"
proof -
  have h: "re_fullmatch arxiv_id_pattern ''2103.03404''" by code_simp
  have l: "id_lookup example_world ''2103.03404 survey'' = Inr []" by code_simp
  show ?thesis
    using h l prefix_anchoring [OF h, of "'' survey''" example_world 7 10 None None]
    by simp
qed

end
